theory Spec2Isabelle
  imports Main "HOL-Library.Word" "HOL-Library.Sublist" "HOL-Library.Code_Target_Nat"
begin

section \<open>JavaScript strings\<close>

text \<open>
  A JavaScript string is a sequence of 16-bit code units; \<open>length\<close>, \<open>indexOf\<close>,
  \<open>substring\<close>, \<open>includes\<close> and \<open>endsWith\<close> all count and compare code units.
  \<open>js\<close> embeds an ASCII literal; characters outside the Basic Multilingual Plane are
  written as their surrogate pair.
\<close>

type_synonym jsstring = "16 word list"

definition js :: "string \<Rightarrow> jsstring" where
  "js s = map of_char s"

text \<open>
  \<open>s.indexOf(p)\<close>: the least index at which \<open>p\<close> occurs in \<open>s\<close>; \<open>None\<close> stands for
  the result \<open>-1\<close>. The empty pattern is found at index 0.
\<close>

fun indexOf :: "'a list \<Rightarrow> 'a list \<Rightarrow> nat option" where
  "indexOf [] p = (if p = [] then Some 0 else None)"
| "indexOf (x # xs) p =
     (if prefix p (x # xs) then Some 0 else map_option Suc (indexOf xs p))"

definition includes' :: "'a list \<Rightarrow> 'a list \<Rightarrow> bool" where
  "includes' s p = (indexOf s p \<noteq> None)"

definition endsWith :: "'a list \<Rightarrow> 'a list \<Rightarrow> bool" where
  "endsWith s p = (length p \<le> length s \<and> drop (length s - length p) s = p)"

text \<open>
  \<open>s.substring(a, b)\<close> and \<open>s.substring(a)\<close> for non-negative integer arguments: both
  indices are clamped to the length and swapped when \<open>a > b\<close>.
\<close>

definition substring :: "'a list \<Rightarrow> nat \<Rightarrow> nat \<Rightarrow> 'a list" where
  "substring s a b =
     (let a' = min a (length s); b' = min b (length s);
          lo = min a' b'; hi = max a' b'
      in take (hi - lo) (drop lo s))"

definition substringFrom :: "'a list \<Rightarrow> nat \<Rightarrow> 'a list" where
  "substringFrom s a = drop (min a (length s)) s"

text \<open>Number-to-string conversion of an integer, as a template literal performs it.\<close>

function digits :: "nat \<Rightarrow> jsstring" where
  "digits n = (if n < 10 then [of_nat (48 + n)]
               else digits (n div 10) @ [of_nat (48 + n mod 10)])"
  by pat_completeness auto
termination
  by (relation "measure (\<lambda>n. n)") auto

declare digits.simps [simp del]

definition numToString :: "int \<Rightarrow> jsstring" where
  "numToString n = (if n < 0 then 45 # digits (nat (- n)) else digits (nat n))"

section \<open>Data model\<close>

text \<open>One entry of \<open>prAnalysis.files\<close>: \<open>{filename, status, additions, deletions}\<close>.\<close>

record fileDelta =
  filename :: jsstring
  status :: jsstring
  additions :: nat
  deletions :: nat

text \<open>
  One entry of \<open>analysis.recentPRs\<close>. The fields \<open>number\<close>, \<open>title\<close> and \<open>body\<close> of the
  source carry the prefix \<open>pr_\<close> here; \<open>body\<close> may be \<open>null\<close>.
\<close>

record prAnalysis =
  pr_number :: int
  pr_title :: jsstring
  pr_body :: "jsstring option"
  mergedAt :: "jsstring option"
  files :: "fileDelta list"
  summary :: jsstring

text \<open>The analysis object; \<open>error\<close> is present only on the failure path.\<close>

record analysis =
  timestamp :: jsstring
  totalPRs :: nat
  recentPRs :: "prAnalysis list"
  error :: "jsstring option"

text \<open>
  A task object. The source's fields \<open>id\<close>, \<open>title\<close> and \<open>files\<close> are \<open>task_id\<close>,
  \<open>task_title\<close> and \<open>task_files\<close>. Note that the object has both a \<open>category\<close> and a
  \<open>type\<close> field.
\<close>

record task =
  task_id :: jsstring
  createdAt :: jsstring
  priority :: jsstring
  category :: jsstring
  task_title :: jsstring
  description :: jsstring
  type :: jsstring
  estimatedHours :: nat
  task_files :: "jsstring list"

text \<open>A reading of the clock, \<open>new Date()\<close>: what \<open>getTime()\<close> and \<open>toISOString()\<close> give.\<close>

record date =
  getTime :: int
  toISOString :: jsstring

section \<open>Task synthesis: \<open>generateTasks\<close>\<close>

text \<open>
  The three pattern flags of lines 164--174; \<open>Array.prototype.some\<close> is \<open>list_ex\<close>.
\<close>

definition hasWorkflowChanges :: "analysis \<Rightarrow> bool" where
  "hasWorkflowChanges a =
     list_ex (\<lambda>pr. list_ex (\<lambda>f. includes' (filename f) (js ''.github/workflows'')) (files pr))
       (recentPRs a)"

definition hasDocumentationChanges :: "analysis \<Rightarrow> bool" where
  "hasDocumentationChanges a =
     list_ex (\<lambda>pr. list_ex (\<lambda>f. endsWith (filename f) (js ''.md'')) (files pr))
       (recentPRs a)"

definition hasNotebookChanges :: "analysis \<Rightarrow> bool" where
  "hasNotebookChanges a =
     list_ex (\<lambda>pr. list_ex (\<lambda>f. endsWith (filename f) (js ''.ipynb'')) (files pr))
       (recentPRs a)"

text \<open>
  \<open>baseTask\<close> has four fields only; each pushed task is \<open>{...baseTask, id: ..., ...}\<close>, so it
  takes \<open>createdAt\<close>, \<open>priority\<close> and \<open>category\<close> from \<open>baseTask\<close> and overrides \<open>id\<close>.
\<close>

record baseTask =
  base_id :: jsstring
  base_createdAt :: jsstring
  base_priority :: jsstring
  base_category :: jsstring

definition mkBaseTask :: "date \<Rightarrow> baseTask" where
  "mkBaseTask now =
     \<lparr> base_id = js ''task-'' @ numToString (getTime now),
       base_createdAt = toISOString now,
       base_priority = js ''medium'',
       base_category = js ''enhancement'' \<rparr>"

definition docTask :: "date \<Rightarrow> task" where
  "docTask now =
     \<lparr> task_id = js ''doc-update-'' @ numToString (getTime now),
       createdAt = base_createdAt (mkBaseTask now),
       priority = base_priority (mkBaseTask now),
       category = base_category (mkBaseTask now),
       task_title = js ''Enhance documentation with usage examples'',
       description = js ''Add more detailed usage examples and troubleshooting guides to improve user experience'',
       type = js ''documentation'',
       estimatedHours = 2,
       task_files = [js ''README.md''] \<rparr>"

definition workflowTask :: "date \<Rightarrow> task" where
  "workflowTask now =
     \<lparr> task_id = js ''workflow-opt-'' @ numToString (getTime now),
       createdAt = base_createdAt (mkBaseTask now),
       priority = base_priority (mkBaseTask now),
       category = base_category (mkBaseTask now),
       task_title = js ''Optimize automated workflows'',
       description = js ''Review and optimize GitHub Actions workflows for better performance and reliability'',
       type = js ''automation'',
       estimatedHours = 3,
       task_files = [js ''.github/workflows/*''] \<rparr>"

definition notebookTask :: "date \<Rightarrow> task" where
  "notebookTask now =
     \<lparr> task_id = js ''notebook-enhance-'' @ numToString (getTime now),
       createdAt = base_createdAt (mkBaseTask now),
       priority = base_priority (mkBaseTask now),
       category = base_category (mkBaseTask now),
       task_title = js ''Add error handling to notebook'',
       description = js ''Improve error handling and user feedback in the Google Drive transfer notebook'',
       type = js ''feature'',
       estimatedHours = 4,
       task_files = [js ''rclone_gdrive_transfer.ipynb''] \<rparr>"

definition generalTask :: "date \<Rightarrow> task" where
  "generalTask now =
     \<lparr> task_id = js ''general-improve-'' @ numToString (getTime now),
       createdAt = base_createdAt (mkBaseTask now),
       priority = base_priority (mkBaseTask now),
       category = base_category (mkBaseTask now),
       task_title = js ''General codebase improvements'',
       description = js ''Review and improve code quality, add tests, or enhance user experience'',
       type = js ''maintenance'',
       estimatedHours = 2,
       task_files = [js ''README.md'', js ''rclone_gdrive_transfer.ipynb''] \<rparr>"

text \<open>
  Lines 151--214: the tasks pushed by the three pattern rules, in the order of the pushes.
  Nothing is pushed when \<open>recentPRs\<close> is empty.
\<close>

definition ruleTasks :: "date \<Rightarrow> analysis \<Rightarrow> task list" where
  "ruleTasks now a =
     (if length (recentPRs a) > 0 then
        (if \<not> hasDocumentationChanges a then [docTask now] else []) @
        (if hasWorkflowChanges a then [workflowTask now] else []) @
        (if hasNotebookChanges a then [notebookTask now] else [])
      else [])"

text \<open>Lines 216--229: the fallback push when the list is still empty, and the return.\<close>

definition generateTasks :: "date \<Rightarrow> analysis \<Rightarrow> task list" where
  "generateTasks now a =
     (let tasks = ruleTasks now a
      in if length tasks = 0 then tasks @ [generalTask now] else tasks)"

section \<open>Change-set analysis: \<open>analyzeRecentPRs\<close>\<close>

text \<open>
  What the hosting platform returns. A pull request of the listing has \<open>number\<close>, \<open>title\<close>,
  \<open>body\<close> (possibly \<open>null\<close>) and \<open>merged_at\<close> (\<open>null\<close> when it was closed without a merge).
  A failed call rejects with an error object that has a \<open>message\<close>.
\<close>

record pull =
  number :: int
  title :: jsstring
  body :: "jsstring option"
  merged_at :: "jsstring option"

datatype apiError = ApiError (message: jsstring)

text \<open>Truthiness of a value that is a string or \<open>null\<close>: the empty string is falsy too.\<close>

fun truthy :: "jsstring option \<Rightarrow> bool" where
  "truthy None = False"
| "truthy (Some s) = (s \<noteq> [])"

text \<open>\<open>Array.prototype.join\<close> on an array of strings.\<close>

fun join :: "jsstring \<Rightarrow> jsstring list \<Rightarrow> jsstring" where
  "join sep [] = []"
| "join sep [x] = x"
| "join sep (x # y # ys) = x @ sep @ join sep (y # ys)"

text \<open>
  Lines 129--143. \<open>path.extname\<close> belongs to the runtime's library, not to this repository,
  and is a parameter. \<open>fileTypes\<close> counts the files per extension; an entry is truthy when
  it is present and not zero.
\<close>

definition countExtension ::
  "(jsstring \<Rightarrow> jsstring) \<Rightarrow> (jsstring \<rightharpoonup> nat) \<Rightarrow> fileDelta \<Rightarrow> (jsstring \<rightharpoonup> nat)" where
  "countExtension extname acc file =
     (let ext = extname (filename file)
      in acc(ext \<mapsto> (case acc ext of None \<Rightarrow> 0 | Some c \<Rightarrow> c) + 1))"

definition generatePRSummary ::
  "(jsstring \<Rightarrow> jsstring) \<Rightarrow> pull \<Rightarrow> fileDelta list \<Rightarrow> jsstring" where
  "generatePRSummary extname pr fs =
     (let fileTypes = foldl (countExtension extname) Map.empty fs;
          present = (\<lambda>k. case fileTypes k of None \<Rightarrow> False | Some c \<Rightarrow> c \<noteq> 0);
          categories =
            (if present (js ''.md'') then [js ''documentation''] else []) @
            (if present (js ''.js'') \<or> present (js ''.json'') then [js ''automation''] else []) @
            (if present (js ''.yml'') \<or> present (js ''.yaml'') then [js ''workflows''] else []) @
            (if present (js ''.ipynb'') then [js ''notebook''] else [])
      in title pr @ js '' - Modified '' @ numToString (int (length fs)) @ js '' files ('' @
         join (js '', '') categories @ js '')'')"

text \<open>
  The body of the loop of lines 82--112 for one pull request. \<open>listFiles\<close> is the
  per-record call of the platform; when it fails the inner \<open>catch\<close> only warns and
  \<open>prAnalysis.files\<close> keeps its initial value \<open>[]\<close>.
\<close>

definition analyzePR ::
  "(jsstring \<Rightarrow> jsstring) \<Rightarrow> (int \<Rightarrow> apiError + fileDelta list) \<Rightarrow> pull \<Rightarrow> prAnalysis" where
  "analyzePR extname listFiles pr =
     (let fs = (case listFiles (number pr) of
                  Inl e \<Rightarrow> []
                | Inr fetched \<Rightarrow>
                    map (\<lambda>f. \<lparr> filename = filename f, status = status f,
                               additions = additions f, deletions = deletions f \<rparr>) fetched)
      in \<lparr> pr_number = number pr, pr_title = title pr, pr_body = body pr,
           mergedAt = merged_at pr, files = fs,
           summary = generatePRSummary extname pr fs \<rparr>)"

text \<open>
  Lines 61--124. \<open>listing\<close> is the outcome of \<open>pulls.list\<close>: the closed pull requests, or the
  error it rejects with, which the outer \<open>catch\<close> turns into the zero analysis.
\<close>

definition analyzeRecentPRs ::
  "(jsstring \<Rightarrow> jsstring) \<Rightarrow> date \<Rightarrow> apiError + pull list
     \<Rightarrow> (int \<Rightarrow> apiError + fileDelta list) \<Rightarrow> analysis" where
  "analyzeRecentPRs extname now listing listFiles =
     (case listing of
        Inr prs \<Rightarrow>
          (let mergedPRs = filter (\<lambda>pr. truthy (merged_at pr)) prs
           in \<lparr> timestamp = toISOString now,
                totalPRs = length mergedPRs,
                recentPRs = map (analyzePR extname listFiles) (take 5 mergedPRs),
                error = None \<rparr>)
      | Inl e \<Rightarrow>
          \<lparr> timestamp = toISOString now, totalPRs = 0, recentPRs = [],
            error = Some (message e) \<rparr>)"

section \<open>Patching the status document: \<open>updateReadmeProgress\<close>\<close>

text \<open>
  The literals of lines 280, 286 and 299. The robot emoji is the surrogate pair
  \<open>D83E DD16\<close>, the page emoji \<open>D83D DCC4\<close>.
\<close>

definition progressMarker :: jsstring where
  "progressMarker = js ''## '' @ [0xD83E, 0xDD16] @ js '' Automated Development Status''"

definition licenseMarker :: jsstring where
  "licenseMarker = js ''## '' @ [0xD83D, 0xDCC4] @ js '' License''"

definition nextSection :: jsstring where
  "nextSection = js ''\<newline>## ''"

text \<open>
  Lines 319--347. \<open>now\<close> is the text \<open>new Date().toLocaleString()\<close> gives. The task numbers
  are \<open>index + 1\<close>; the total is the \<open>reduce\<close> over \<open>estimatedHours\<close>.
\<close>

definition taskEntry :: "nat \<Rightarrow> task \<Rightarrow> jsstring" where
  "taskEntry index t =
     numToString (int index + 1) @ js ''. **'' @ task_title t @ js ''**\<newline>'' @
     js ''   - Type: '' @ type t @ js ''\<newline>'' @
     js ''   - Priority: '' @ priority t @ js ''\<newline>'' @
     js ''   - Estimated: '' @ numToString (int (estimatedHours t)) @ js ''h\<newline>'' @
     js ''   - Description: '' @ description t @ js ''\<newline>\<newline>''"

definition generateProgressSection :: "jsstring \<Rightarrow> task list \<Rightarrow> jsstring" where
  "generateProgressSection now tasks =
     js ''## '' @ [0xD83E, 0xDD16] @ js '' Automated Development Status\<newline>\<newline>'' @
     js ''*Last updated: '' @ now @ js '' by Continuous Coding Agent*\<newline>\<newline>'' @
     (if length tasks > 0 then
        js ''### '' @ [0xD83C, 0xDFAF] @ js '' Current Development Tasks\<newline>\<newline>'' @
        concat (map (\<lambda>(index, t). taskEntry index t) (enumerate 0 tasks)) @
        js ''### '' @ [0xD83D, 0xDCCA] @ js '' Development Metrics\<newline>\<newline>'' @
        js ''- Active tasks: '' @ numToString (int (length tasks)) @ js ''\<newline>'' @
        js ''- Total estimated hours: '' @
          numToString (int (foldl (\<lambda>sum t. sum + estimatedHours t) 0 tasks)) @ js ''h\<newline>'' @
        js ''- Agent status: '' @ [0x2705] @ js '' Active\<newline>\<newline>''
      else
        js ''### '' @ [0x2705] @ js '' No Active Tasks\<newline>\<newline>'' @
        js ''The continuous agent has analyzed recent activity and found no immediate tasks requiring attention.\<newline>\<newline>'') @
     js ''*This section is automatically maintained by the continuous coding agent workflow.*\<newline>''"

text \<open>
  Lines 279--308: the new content of the document, from its old content and the
  generated section.
\<close>

definition patchReadme :: "jsstring \<Rightarrow> jsstring \<Rightarrow> jsstring" where
  "patchReadme readmeContent progressSection =
     (case indexOf readmeContent progressMarker of
        Some existingProgressIndex \<Rightarrow>
          (let afterProgress =
                 substringFrom readmeContent (existingProgressIndex + length progressMarker)
           in case indexOf afterProgress nextSection of
                Some nextSectionIndex \<Rightarrow>
                  substring readmeContent 0 existingProgressIndex @ progressSection @
                  substringFrom afterProgress nextSectionIndex
              | None \<Rightarrow>
                  substring readmeContent 0 existingProgressIndex @ progressSection)
      | None \<Rightarrow>
          (case indexOf readmeContent licenseMarker of
             Some licenseIndex \<Rightarrow>
               substring readmeContent 0 licenseIndex @ progressSection @
               js ''\<newline>\<newline>'' @ substringFrom readmeContent licenseIndex
           | None \<Rightarrow> readmeContent @ js ''\<newline>\<newline>'' @ progressSection))"

text \<open>
  Lines 270--314. The document is read, patched and written back; \<open>None\<close> as input is a
  failed read, after which nothing is written (\<open>None\<close> as output).
\<close>

definition updateReadmeProgress :: "jsstring \<Rightarrow> task list \<Rightarrow> jsstring option \<Rightarrow> jsstring option" where
  "updateReadmeProgress now tasks readme =
     (case readme of
        None \<Rightarrow> None
      | Some readmeContent \<Rightarrow>
          Some (patchReadme readmeContent (generateProgressSection now tasks)))"

section \<open>Example inputs\<close>

text \<open>
  Concrete inputs for the examples below: a clock reading, the empty analysis that
  \<open>validate-workflow.js\<close> passes to \<open>generateTasks\<close>, an analysis with one record that
  touches one path, the section generated for the tasks of the empty analysis, and four
  small documents.
\<close>

abbreviation clock :: date where
  "clock \<equiv> \<lparr> getTime = 1754265616000, toISOString = js ''2025-08-04T00:00:16.000Z'' \<rparr>"

abbreviation emptyAnalysis :: analysis where
  "emptyAnalysis \<equiv>
     \<lparr> timestamp = js ''2025-08-04T00:00:16.000Z'', totalPRs = 0, recentPRs = [],
       error = None \<rparr>"

abbreviation onePathRecord :: "jsstring \<Rightarrow> prAnalysis" where
  "onePathRecord p \<equiv>
     \<lparr> pr_number = 1, pr_title = js ''Add pipeline'', pr_body = None,
       mergedAt = Some (js ''2025-01-02T10:00:00Z''),
       files = [\<lparr> filename = p, status = js ''added'', additions = 80, deletions = 0 \<rparr>],
       summary = js ''Add pipeline - Modified 1 files (workflows)'' \<rparr>"

abbreviation onePathAnalysis :: "jsstring \<Rightarrow> analysis" where
  "onePathAnalysis p \<equiv>
     \<lparr> timestamp = js ''2025-08-04T00:00:16.000Z'', totalPRs = 1,
       recentPRs = [onePathRecord p], error = None \<rparr>"

abbreviation exampleSection :: jsstring where
  "exampleSection \<equiv>
     generateProgressSection (js ''8/4/2025, 12:00:16 AM'') (generateTasks clock emptyAnalysis)"

abbreviation licensedReadme :: jsstring where
  "licensedReadme \<equiv>
     js ''# Tool\<newline>\<newline>## '' @ [0xD83D, 0xDCC4] @ js '' License\<newline>\<newline>MIT\<newline>''"

abbreviation plainLicenseReadme :: jsstring where
  "plainLicenseReadme \<equiv> js ''# Tool\<newline>\<newline>## License\<newline>\<newline>MIT\<newline>''"

abbreviation patchedReadme :: jsstring where
  "patchedReadme \<equiv>
     js ''# Tool\<newline>\<newline>## '' @ [0xD83E, 0xDD16] @
     js '' Automated Development Status\<newline>\<newline>old status\<newline>\<newline>## '' @
     [0xD83D, 0xDCC4] @ js '' License\<newline>\<newline>MIT\<newline>''"

abbreviation bareReadme :: jsstring where
  "bareReadme \<equiv> js ''# Tool\<newline>\<newline>Usage notes.\<newline>''"

abbreviation closedPull :: "int \<Rightarrow> jsstring option \<Rightarrow> pull" where
  "closedPull n m \<equiv> \<lparr> number = n, title = js ''Change'', body = None, merged_at = m \<rparr>"

section \<open>Properties of task synthesis\<close>

lemma js_Cons: "js (c # s) = of_char c # js s"
  by (simp add: js_def)

lemma task_types:
  "type (docTask now) = js ''documentation''"
  "type (workflowTask now) = js ''automation''"
  "type (notebookTask now) = js ''feature''"
  "type (generalTask now) = js ''maintenance''"
  by (simp_all add: docTask_def workflowTask_def notebookTask_def generalTask_def)

lemma task_categories:
  "category (docTask now) = js ''enhancement''"
  "category (workflowTask now) = js ''enhancement''"
  "category (notebookTask now) = js ''enhancement''"
  "category (generalTask now) = js ''enhancement''"
  by (simp_all add: docTask_def workflowTask_def notebookTask_def generalTask_def
      mkBaseTask_def)

lemma task_ids:
  "task_id (docTask now) = js ''doc-update-'' @ numToString (getTime now)"
  "task_id (workflowTask now) = js ''workflow-opt-'' @ numToString (getTime now)"
  "task_id (notebookTask now) = js ''notebook-enhance-'' @ numToString (getTime now)"
  "task_id (generalTask now) = js ''general-improve-'' @ numToString (getTime now)"
  by (simp_all add: docTask_def workflowTask_def notebookTask_def generalTask_def)

lemma set_ruleTasks:
  "set (ruleTasks now a) \<subseteq> {docTask now, workflowTask now, notebookTask now}"
  by (auto simp: ruleTasks_def)

lemma set_generateTasks:
  "set (generateTasks now a)
     \<subseteq> {docTask now, workflowTask now, notebookTask now, generalTask now}"
  using set_ruleTasks [of now a] by (auto simp: generateTasks_def Let_def)

lemma generalTask_notin_ruleTasks: "generalTask now \<notin> set (ruleTasks now a)"
proof
  assume "generalTask now \<in> set (ruleTasks now a)"
  then have "generalTask now \<in> {docTask now, workflowTask now, notebookTask now}"
    using set_ruleTasks [of now a] by blast
  then have "type (generalTask now) \<in> type ` {docTask now, workflowTask now, notebookTask now}"
    by (rule imageI)
  then have "js ''maintenance'' \<in> {js ''documentation'', js ''automation'', js ''feature''}"
    by (simp add: task_types)
  then show False
    by (simp add: js_def)
qed

subsection \<open>The \<open>type\<close> and \<open>category\<close> fields\<close>

text \<open>
  Claim C2, as stated, fails: the \<open>category\<close> field of every returned task is the constant
  \<open>enhancement\<close> that each task inherits from \<open>baseTask\<close>. Already for the empty analysis the
  one returned task has a \<open>category\<close> outside the four values.
\<close>

theorem generateTasks_category_counterexample:
  "map category (generateTasks clock emptyAnalysis) = [js ''enhancement'']
   \<and> js ''enhancement''
        \<notin> {js ''documentation'', js ''automation'', js ''feature'', js ''maintenance''}"
  by (simp add: generateTasks_def ruleTasks_def task_categories) (simp add: js_def)

text \<open>
  Claim C2, amended: for every analysis, every returned task has its \<open>type\<close> field equal to
  one of \<open>documentation\<close>, \<open>automation\<close>, \<open>feature\<close>, \<open>maintenance\<close>, and its \<open>category\<close> field
  equal to \<open>enhancement\<close>.
\<close>

theorem generateTasks_type_and_category:
  "t \<in> set (generateTasks now a) \<Longrightarrow>
     type t \<in> {js ''documentation'', js ''automation'', js ''feature'', js ''maintenance''}
     \<and> category t = js ''enhancement''"
  using set_generateTasks [of now a] task_types [of now] task_categories [of now]
  by auto

theorem generateTasks_type_and_category_witness:
  "generalTask clock \<in> set (generateTasks clock emptyAnalysis)
   \<and> type (generalTask clock)
        \<in> {js ''documentation'', js ''automation'', js ''feature'', js ''maintenance''}
   \<and> category (generalTask clock) = js ''enhancement''"
proof -
  have h: "generalTask clock \<in> set (generateTasks clock emptyAnalysis)"
    by (simp add: generateTasks_def ruleTasks_def)
  from generateTasks_type_and_category [OF h] h show ?thesis by simp
qed

subsection \<open>One record that touches a workflow definition\<close>

text \<open>
  Claim C3, as stated, fails: the workflow rule looks for the text \<open>.github/workflows\<close> in
  the path, which \<open>pipeline/ci.yml\<close> does not contain. For that path only the documentation
  rule fires and one task is returned.
\<close>

theorem generateTasks_pipeline_counterexample:
  "map type (generateTasks clock (onePathAnalysis (js ''pipeline/ci.yml'')))
     = [js ''documentation'']"
  by (simp add: generateTasks_def ruleTasks_def hasDocumentationChanges_def
      hasWorkflowChanges_def hasNotebookChanges_def includes'_def endsWith_def task_types)
    (simp add: js_def)

lemma workflow_path_flags:
  "includes' (js ''.github/workflows/ci.yml'') (js ''.github/workflows'')"
  "\<not> endsWith (js ''.github/workflows/ci.yml'') (js ''.md'')"
  "\<not> endsWith (js ''.github/workflows/ci.yml'') (js ''.ipynb'')"
  by (simp_all add: includes'_def endsWith_def js_def)

text \<open>
  Claim C3, amended: for an analysis with exactly one record whose file deltas consist of
  the single path \<open>.github/workflows/ci.yml\<close>, exactly two tasks are returned, in order:
  first the one with \<open>type\<close> \<open>documentation\<close>, then the one with \<open>type\<close> \<open>automation\<close>.
\<close>

theorem generateTasks_workflow_scenario:
  assumes "recentPRs a = [pr]"
    and "map filename (files pr) = [js ''.github/workflows/ci.yml'']"
  shows "generateTasks now a = [docTask now, workflowTask now]
         \<and> map type (generateTasks now a) = [js ''documentation'', js ''automation'']"
proof -
  from assms(2) obtain f where f: "files pr = [f]" "filename f = js ''.github/workflows/ci.yml''"
    by (auto simp: map_eq_Cons_conv)
  have "hasWorkflowChanges a" "\<not> hasDocumentationChanges a" "\<not> hasNotebookChanges a"
    using assms(1) f workflow_path_flags
    by (simp_all add: hasWorkflowChanges_def hasDocumentationChanges_def hasNotebookChanges_def)
  then have "generateTasks now a = [docTask now, workflowTask now]"
    using assms(1) by (simp add: generateTasks_def ruleTasks_def)
  then show ?thesis by (simp add: task_types)
qed

theorem generateTasks_workflow_scenario_witness:
  "map type (generateTasks clock (onePathAnalysis (js ''.github/workflows/ci.yml'')))
     = [js ''documentation'', js ''automation'']"
  using generateTasks_workflow_scenario
    [of "onePathAnalysis (js ''.github/workflows/ci.yml'')"
        "onePathRecord (js ''.github/workflows/ci.yml'')" clock]
  by (simp add: task_types)

subsection \<open>The returned list is never empty\<close>

text \<open>
  Claim C4: for every analysis, also one with \<open>recentPRs = []\<close>, at least one task is
  returned, and the fallback task is among the returned tasks exactly when the three
  pattern rules produced nothing.
\<close>

theorem generateTasks_nonempty:
  "1 \<le> length (generateTasks now a)
   \<and> (generalTask now \<in> set (generateTasks now a)) = (ruleTasks now a = [])"
  using generalTask_notin_ruleTasks [of now a]
  by (cases "ruleTasks now a") (simp_all add: generateTasks_def Let_def)

subsection \<open>Identifiers within one run\<close>

lemma id_prefixes_differ:
  "js ''doc-update-'' @ s \<noteq> js ''workflow-opt-'' @ s"
  "js ''doc-update-'' @ s \<noteq> js ''notebook-enhance-'' @ s"
  "js ''workflow-opt-'' @ s \<noteq> js ''notebook-enhance-'' @ s"
  by (simp_all add: js_def)

text \<open>
  Claim C9: within one run the ids of the returned tasks are pairwise distinct. All ids
  end in the same clock reading, and each rule has a prefix of its own.
\<close>

theorem generateTasks_ids_distinct:
  "distinct (map task_id (generateTasks now a))"
  using id_prefixes_differ [of "numToString (getTime now)"]
  by (simp add: generateTasks_def ruleTasks_def Let_def task_ids)

subsection \<open>What the output depends on\<close>

text \<open>
  Claim C10: two analyses evaluated at the same clock reading that agree on whether
  \<open>recentPRs\<close> is empty, on whether some touched path ends in \<open>.md\<close>, on whether some touched
  path contains \<open>.github/workflows\<close> and on whether some touched path ends in \<open>.ipynb\<close> get
  identical task lists.
\<close>

theorem generateTasks_noninterference:
  assumes "(recentPRs a = []) = (recentPRs b = [])"
    and "(\<exists>pr \<in> set (recentPRs a). \<exists>f \<in> set (files pr). endsWith (filename f) (js ''.md''))
       = (\<exists>pr \<in> set (recentPRs b). \<exists>f \<in> set (files pr). endsWith (filename f) (js ''.md''))"
    and "(\<exists>pr \<in> set (recentPRs a). \<exists>f \<in> set (files pr). includes' (filename f) (js ''.github/workflows''))
       = (\<exists>pr \<in> set (recentPRs b). \<exists>f \<in> set (files pr). includes' (filename f) (js ''.github/workflows''))"
    and "(\<exists>pr \<in> set (recentPRs a). \<exists>f \<in> set (files pr). endsWith (filename f) (js ''.ipynb''))
       = (\<exists>pr \<in> set (recentPRs b). \<exists>f \<in> set (files pr). endsWith (filename f) (js ''.ipynb''))"
  shows "generateTasks now a = generateTasks now b"
proof -
  have "hasDocumentationChanges a = hasDocumentationChanges b"
    using assms(2) by (simp add: hasDocumentationChanges_def list_ex_iff)
  moreover have "hasWorkflowChanges a = hasWorkflowChanges b"
    using assms(3) by (simp add: hasWorkflowChanges_def list_ex_iff)
  moreover have "hasNotebookChanges a = hasNotebookChanges b"
    using assms(4) by (simp add: hasNotebookChanges_def list_ex_iff)
  ultimately have "ruleTasks now a = ruleTasks now b"
    using assms(1) by (simp add: ruleTasks_def)
  then show ?thesis by (simp add: generateTasks_def)
qed

text \<open>
  Two analyses that differ in \<open>timestamp\<close>, \<open>totalPRs\<close>, the number of records and their
  titles, bodies, summaries, paths and line counts, but agree on the four conditions.
\<close>

theorem generateTasks_noninterference_witness:
  "generateTasks clock (onePathAnalysis (js ''.github/workflows/ci.yml''))
   = generateTasks clock
      \<lparr> timestamp = js ''2025-09-01T12:00:00.000Z'', totalPRs = 7,
        recentPRs =
          [\<lparr> pr_number = 5, pr_title = js ''Tune'', pr_body = Some (js ''text''),
             mergedAt = Some (js ''2025-03-01T08:00:00Z''),
             files = [\<lparr> filename = js ''src/a.js'', status = js ''modified'',
                       additions = 3, deletions = 9 \<rparr>],
             summary = js ''Tune - Modified 1 files (automation)'' \<rparr>,
           \<lparr> pr_number = 4, pr_title = js ''Deploy'', pr_body = None,
             mergedAt = Some (js ''2025-02-01T08:00:00Z''),
             files = [\<lparr> filename = js ''.github/workflows/x.yaml'', status = js ''removed'',
                       additions = 0, deletions = 12 \<rparr>],
             summary = js ''Deploy - Modified 1 files (workflows)'' \<rparr>],
        error = None \<rparr>"
  by (rule generateTasks_noninterference)
    (simp_all add: endsWith_def includes'_def, simp_all add: js_def)

section \<open>Properties of the change-set analysis\<close>

text \<open>
  Claim C5: every analysis has \<open>totalPRs\<close> at least the number of \<open>recentPRs\<close> and at most
  five \<open>recentPRs\<close>; when the listing succeeds, \<open>totalPRs\<close> counts all merged pull requests
  of the listing and \<open>recentPRs\<close> holds the first five of them, in the order of the listing.
\<close>

theorem analyzeRecentPRs_counts:
  "length (recentPRs (analyzeRecentPRs extname now listing listFiles))
     \<le> totalPRs (analyzeRecentPRs extname now listing listFiles)
   \<and> length (recentPRs (analyzeRecentPRs extname now listing listFiles)) \<le> 5
   \<and> (\<forall>prs. listing = Inr prs \<longrightarrow>
        totalPRs (analyzeRecentPRs extname now listing listFiles)
          = length (filter (\<lambda>pr. truthy (merged_at pr)) prs)
        \<and> map pr_number (recentPRs (analyzeRecentPRs extname now listing listFiles))
          = map number (take 5 (filter (\<lambda>pr. truthy (merged_at pr)) prs)))"
  by (cases listing) (simp_all add: analyzeRecentPRs_def analyzePR_def Let_def comp_def)

text \<open>Seven closed pull requests, six of them merged: the count is 6, the records are 5.\<close>

theorem analyzeRecentPRs_counts_witness:
  "totalPRs (analyzeRecentPRs (\<lambda>p. []) clock
       (Inr [closedPull 9 (Some (js ''2025-08-03'')), closedPull 8 (Some (js ''2025-08-02'')),
             closedPull 7 None, closedPull 6 (Some (js ''2025-07-30'')),
             closedPull 5 (Some (js ''2025-07-29'')), closedPull 4 (Some (js ''2025-07-28'')),
             closedPull 3 (Some (js ''2025-07-27''))])
       (\<lambda>n. Inr [])) = 6
   \<and> map pr_number (recentPRs (analyzeRecentPRs (\<lambda>p. []) clock
       (Inr [closedPull 9 (Some (js ''2025-08-03'')), closedPull 8 (Some (js ''2025-08-02'')),
             closedPull 7 None, closedPull 6 (Some (js ''2025-07-30'')),
             closedPull 5 (Some (js ''2025-07-29'')), closedPull 4 (Some (js ''2025-07-28'')),
             closedPull 3 (Some (js ''2025-07-27''))])
       (\<lambda>n. Inr []))) = [9, 8, 6, 5, 4]"
  using analyzeRecentPRs_counts
    [of "\<lambda>p. []" clock
        "Inr [closedPull 9 (Some (js ''2025-08-03'')), closedPull 8 (Some (js ''2025-08-02'')),
              closedPull 7 None, closedPull 6 (Some (js ''2025-07-30'')),
              closedPull 5 (Some (js ''2025-07-29'')), closedPull 4 (Some (js ''2025-07-28'')),
              closedPull 3 (Some (js ''2025-07-27''))]"
        "\<lambda>n. Inr []"]
  by (simp add: js_def)

text \<open>
  Claim C6: when the listing call fails, the failure is not propagated: the result is the
  analysis with \<open>totalPRs = 0\<close>, \<open>recentPRs = []\<close> and the message of the failure in \<open>error\<close>.
\<close>

theorem analyzeRecentPRs_listing_failure:
  "analyzeRecentPRs extname now (Inl e) listFiles
     = \<lparr> timestamp = toISOString now, totalPRs = 0, recentPRs = [],
         error = Some (message e) \<rparr>"
  by (simp add: analyzeRecentPRs_def)

lemma numToString_0: "numToString 0 = js ''0''"
  by (simp add: numToString_def digits.simps [of 0] js_def)

lemma generatePRSummary_no_files:
  "generatePRSummary extname pr [] = title pr @ js '' - Modified 0 files ()''"
  by (simp add: generatePRSummary_def numToString_0 js_def)

lemma analyzePR_fetch_failure:
  "listFiles (number pr) = Inl e \<Longrightarrow>
     analyzePR extname listFiles pr
       = \<lparr> pr_number = number pr, pr_title = title pr, pr_body = body pr,
           mergedAt = merged_at pr, files = [],
           summary = title pr @ js '' - Modified 0 files ()'' \<rparr>"
  by (simp add: analyzePR_def generatePRSummary_no_files)

lemma copy_fileDelta:
  "map (\<lambda>f. \<lparr> filename = filename f, status = status f,
                additions = additions f, deletions = deletions f \<rparr>) fs = fs"
  by (induction fs) simp_all

lemma analyzePR_fetch_success:
  "listFiles (number pr) = Inr fs \<Longrightarrow>
     files (analyzePR extname listFiles pr) = fs"
  by (simp add: analyzePR_def Let_def copy_fileDelta)

text \<open>
  Claim C8: when the file listing fails for the \<open>i\<close>-th of the selected pull requests, the
  run is not aborted and no record is dropped; the \<open>i\<close>-th record is present with \<open>files = []\<close>
  and its summary, and every record whose file listing succeeds has the listed files.
\<close>

theorem analyzeRecentPRs_file_fetch_failure:
  assumes "i < length (take 5 (filter (\<lambda>pr. truthy (merged_at pr)) prs))"
    and "listFiles (number (filter (\<lambda>pr. truthy (merged_at pr)) prs ! i)) = Inl e"
  shows "error (analyzeRecentPRs extname now (Inr prs) listFiles) = None
    \<and> length (recentPRs (analyzeRecentPRs extname now (Inr prs) listFiles))
        = length (take 5 (filter (\<lambda>pr. truthy (merged_at pr)) prs))
    \<and> recentPRs (analyzeRecentPRs extname now (Inr prs) listFiles) ! i
        = \<lparr> pr_number = number (filter (\<lambda>pr. truthy (merged_at pr)) prs ! i),
            pr_title = title (filter (\<lambda>pr. truthy (merged_at pr)) prs ! i),
            pr_body = body (filter (\<lambda>pr. truthy (merged_at pr)) prs ! i),
            mergedAt = merged_at (filter (\<lambda>pr. truthy (merged_at pr)) prs ! i),
            files = [],
            summary = title (filter (\<lambda>pr. truthy (merged_at pr)) prs ! i)
                        @ js '' - Modified 0 files ()'' \<rparr>
    \<and> (\<forall>j fs. j < length (take 5 (filter (\<lambda>pr. truthy (merged_at pr)) prs))
          \<and> listFiles (number (filter (\<lambda>pr. truthy (merged_at pr)) prs ! j)) = Inr fs
        \<longrightarrow> files (recentPRs (analyzeRecentPRs extname now (Inr prs) listFiles) ! j) = fs)"
  using assms
  by (simp add: analyzeRecentPRs_def Let_def analyzePR_fetch_failure analyzePR_fetch_success)

text \<open>Two merged pull requests; the file listing fails for number 2 and succeeds for number 1.\<close>

theorem analyzeRecentPRs_file_fetch_failure_witness:
  "recentPRs (analyzeRecentPRs (\<lambda>p. []) clock
       (Inr [closedPull 2 (Some (js ''2025-08-03'')), closedPull 1 (Some (js ''2025-08-02''))])
       (\<lambda>n. if n = 2 then Inl (ApiError (js ''Server Error'')) else Inr [])) ! 0
     = \<lparr> pr_number = 2, pr_title = js ''Change'', pr_body = None,
         mergedAt = Some (js ''2025-08-03''), files = [],
         summary = js ''Change'' @ js '' - Modified 0 files ()'' \<rparr>
   \<and> length (recentPRs (analyzeRecentPRs (\<lambda>p. []) clock
       (Inr [closedPull 2 (Some (js ''2025-08-03'')), closedPull 1 (Some (js ''2025-08-02''))])
       (\<lambda>n. if n = 2 then Inl (ApiError (js ''Server Error'')) else Inr []))) = 2"
proof -
  let ?prs = "[closedPull 2 (Some (js ''2025-08-03'')), closedPull 1 (Some (js ''2025-08-02''))]"
  let ?listFiles = "\<lambda>n::int. if n = 2 then Inl (ApiError (js ''Server Error''))
                             else (Inr [] :: apiError + fileDelta list)"
  have merged: "filter (\<lambda>pr. truthy (merged_at pr)) ?prs = ?prs"
    by (simp add: js_def)
  have h1: "0 < length (take 5 (filter (\<lambda>pr. truthy (merged_at pr)) ?prs))"
    unfolding merged by simp
  have h2: "?listFiles (number (filter (\<lambda>pr. truthy (merged_at pr)) ?prs ! 0))
              = Inl (ApiError (js ''Server Error''))"
    unfolding merged by simp
  from h1 h2 analyzeRecentPRs_file_fetch_failure
    [where i = 0 and prs = ?prs and listFiles = ?listFiles
       and e = "ApiError (js ''Server Error'')" and extname = "\<lambda>p. []" and now = clock]
  show ?thesis unfolding merged by simp
qed

section \<open>Properties of the document patch\<close>

subsection \<open>What \<open>indexOf\<close> computes\<close>

lemma indexOf_le: "indexOf s p = Some i \<Longrightarrow> i \<le> length s"
  by (induction s arbitrary: i) (auto split: if_splits)

lemma indexOf_prefix: "indexOf s p = Some i \<Longrightarrow> prefix p (drop i s)"
  by (induction s arbitrary: i) (auto split: if_splits)

lemma indexOf_least: "indexOf s p = Some i \<Longrightarrow> j < i \<Longrightarrow> \<not> prefix p (drop j s)"
proof (induction s arbitrary: i j)
  case Nil
  then show ?case by (simp split: if_splits)
next
  case (Cons x xs)
  show ?case
  proof (cases "prefix p (x # xs)")
    case True
    with Cons.prems show ?thesis by simp
  next
    case False
    with Cons.prems obtain i' where i': "indexOf xs p = Some i'" "i = Suc i'"
      by auto
    show ?thesis
    proof (cases j)
      case 0
      with False show ?thesis by simp
    next
      case (Suc j')
      with Cons.prems(2) i' have "j' < i'" by simp
      from Cons.IH [OF i'(1) this] Suc show ?thesis by simp
    qed
  qed
qed

lemma indexOf_None: "indexOf s p = None \<Longrightarrow> j \<le> length s \<Longrightarrow> \<not> prefix p (drop j s)"
proof (induction s arbitrary: j)
  case Nil
  then show ?case by (simp split: if_splits)
next
  case (Cons x xs)
  from Cons.prems(1) have np: "\<not> prefix p (x # xs)" and rest: "indexOf xs p = None"
    by (auto split: if_splits)
  show ?case
  proof (cases j)
    case 0
    with np show ?thesis by simp
  next
    case (Suc j')
    with Cons.prems(2) have "j' \<le> length xs" by simp
    from Cons.IH [OF rest this] Suc show ?thesis by simp
  qed
qed

lemma indexOf_SomeI:
  "i \<le> length s \<Longrightarrow> prefix p (drop i s) \<Longrightarrow> (\<And>j. j < i \<Longrightarrow> \<not> prefix p (drop j s))
     \<Longrightarrow> indexOf s p = Some i"
proof (induction s arbitrary: i)
  case Nil
  then show ?case by simp
next
  case (Cons x xs)
  show ?case
  proof (cases i)
    case 0
    with Cons.prems(2) show ?thesis by simp
  next
    case (Suc i')
    with Cons.prems(3) [of 0] have np: "\<not> prefix p (x # xs)" by simp
    have "indexOf xs p = Some i'"
    proof (rule Cons.IH)
      show "i' \<le> length xs" using Cons.prems(1) Suc by simp
      show "prefix p (drop i' xs)" using Cons.prems(2) Suc by simp
      show "\<not> prefix p (drop j xs)" if "j < i'" for j
        using Cons.prems(3) [of "Suc j"] that Suc by simp
    qed
    with np Suc show ?thesis by simp
  qed
qed

lemma indexOf_split:
  assumes "indexOf s p = Some i"
  shows "s = take i s @ p @ drop (i + length p) s"
proof -
  from indexOf_prefix [OF assms] obtain zs where zs: "drop i s = p @ zs"
    by (auto simp: prefix_def)
  then have "drop (i + length p) s = zs"
    by (metis add.commute append_eq_conv_conj drop_drop)
  with zs show ?thesis
    by (metis append_take_drop_id)
qed

text \<open>The first occurrence stays where it is when the text after it is replaced.\<close>

lemma indexOf_replace_tail:
  assumes "indexOf (P @ M @ R) M = Some (length P)"
  shows "indexOf (P @ M @ R') M = Some (length P)"
proof (rule indexOf_SomeI)
  show "length P \<le> length (P @ M @ R')" by simp
  show "prefix M (drop (length P) (P @ M @ R'))" by simp
  show "\<not> prefix M (drop j (P @ M @ R'))" if "j < length P" for j
  proof
    assume a: "prefix M (drop j (P @ M @ R'))"
    from that have d: "drop j (P @ M @ R') = (drop j P @ M) @ R'" by simp
    have "prefix (drop j P @ M) (drop j (P @ M @ R'))"
      unfolding d by simp
    from prefix_length_prefix [OF a this] have "prefix M (drop j P @ M)" by simp
    then have "prefix M ((drop j P @ M) @ R)" by (rule prefix_prefix)
    with that have "prefix M (drop j (P @ M @ R))" by simp
    with indexOf_least [OF assms that] show False by simp
  qed
qed

text \<open>
  A pattern whose first element does not occur again in it cannot overlap itself: if it
  is absent from \<open>X\<close>, its first occurrence in \<open>X @ T\<close>, where \<open>T\<close> starts with it, is at
  the end of \<open>X\<close>.
\<close>

lemma indexOf_no_overlap:
  assumes B: "B \<noteq> []" "hd B \<notin> set (tl B)"
    and X: "indexOf X B = None"
    and T: "prefix B T"
  shows "indexOf (X @ T) B = Some (length X)"
proof (rule indexOf_SomeI)
  show "length X \<le> length (X @ T)" by simp
  show "prefix B (drop (length X) (X @ T))" using T by simp
  show "\<not> prefix B (drop j (X @ T))" if "j < length X" for j
  proof
    assume "prefix B (drop j (X @ T))"
    with that have "prefix B (drop j X @ T)" by simp
    then consider "prefix B (drop j X)" | us where "B = drop j X @ us" "prefix us T"
      by (auto simp: prefix_append)
    then show False
    proof cases
      case 1
      with indexOf_None [OF X, of j] that show False by simp
    next
      case 2
      from that obtain y ys where u: "drop j X = y # ys"
        by (cases "drop j X") simp_all
      have "us \<noteq> []"
      proof
        assume "us = []"
        with 2 have "prefix B (drop j X)" by simp
        with indexOf_None [OF X, of j] that show False by simp
      qed
      then obtain z zs where us: "us = z # zs" by (cases us) simp_all
      from 2 u us have Beq: "B = y # ys @ z # zs" by simp
      have "length us \<le> length B" using 2(1) by (metis length_append le_add2)
      from prefix_length_prefix [OF 2(2) T this] have "prefix us B" .
      with us Beq have "z = y" by simp
      with Beq B(2) show False by simp
    qed
  qed
qed

text \<open>
  A pattern without a line feed, absent from \<open>doc\<close>, first occurs in
  \<open>doc @ [10, 10] @ M @ R\<close> right after the two line feeds.
\<close>

lemma indexOf_after_blank_line:
  assumes M: "M \<noteq> []" "(10 :: 16 word) \<notin> set M"
    and doc: "indexOf doc M = None"
  shows "indexOf (doc @ [10, 10] @ M @ R) M = Some (length doc + 2)"
proof (rule indexOf_SomeI)
  show "length doc + 2 \<le> length (doc @ [10, 10] @ M @ R)" by simp
  show "prefix M (drop (length doc + 2) (doc @ [10, 10] @ M @ R))" by simp
  show "\<not> prefix M (drop j (doc @ [10, 10] @ M @ R))" if j: "j < length doc + 2" for j
  proof
    assume a: "prefix M (drop j (doc @ [10, 10] @ M @ R))"
    from M(1) obtain m ms where Mc: "M = m # ms" by (cases M) simp_all
    with M(2) have m: "m \<noteq> 10" by auto
    consider "j < length doc" | "j = length doc" | "j = Suc (length doc)"
      using j by linarith
    then show False
    proof cases
      case 1
      with a have "prefix M (drop j doc @ 10 # 10 # M @ R)" by simp
      then consider "prefix M (drop j doc)"
        | us where "M = drop j doc @ us" "prefix us (10 # 10 # M @ R)"
        by (auto simp: prefix_append)
      then show False
      proof cases
        case 1
        with indexOf_None [OF doc, of j] j \<open>j < length doc\<close> show False by simp
      next
        case 2
        have "us \<noteq> []"
        proof
          assume "us = []"
          with 2 have "prefix M (drop j doc)" by simp
          with indexOf_None [OF doc, of j] \<open>j < length doc\<close> show False by simp
        qed
        then obtain z zs where us: "us = z # zs" by (cases us) simp_all
        with 2(2) have "z = 10" by simp
        with 2(1) us M(2) show False by simp
      qed
    next
      case 2
      with a Mc m show False by simp
    next
      case 3
      with a Mc m show False by simp
    qed
  qed
qed

subsection \<open>The four branches of \<open>patchReadme\<close>\<close>

lemma blank_line: "js ''\<newline>\<newline>'' = [10, 10]"
  by (simp add: js_def)

lemma patchReadme_replace:
  assumes "indexOf doc progressMarker = Some i"
    and "indexOf (drop (i + length progressMarker) doc) nextSection = Some j"
  shows "patchReadme doc S = take i doc @ S @ drop j (drop (i + length progressMarker) doc)"
proof -
  have "i \<le> length doc" using assms(1) by (rule indexOf_le)
  moreover have "i + length progressMarker \<le> length doc"
    using indexOf_split [OF assms(1)]
    by (metis add_le_cancel_left indexOf_prefix [OF assms(1)] length_drop
        le_add_diff_inverse calculation prefix_length_le)
  moreover have "j \<le> length (drop (i + length progressMarker) doc)"
    using assms(2) by (rule indexOf_le)
  ultimately show ?thesis
    using assms by (simp add: patchReadme_def substring_def substringFrom_def Let_def min_def)
qed

lemma patchReadme_replace_to_end:
  assumes "indexOf doc progressMarker = Some i"
    and "indexOf (drop (i + length progressMarker) doc) nextSection = None"
  shows "patchReadme doc S = take i doc @ S"
proof -
  have "i \<le> length doc" using assms(1) by (rule indexOf_le)
  moreover have "i + length progressMarker \<le> length doc"
    using indexOf_split [OF assms(1)]
    by (metis add_le_cancel_left indexOf_prefix [OF assms(1)] length_drop
        le_add_diff_inverse calculation prefix_length_le)
  ultimately show ?thesis
    using assms by (simp add: patchReadme_def substring_def substringFrom_def Let_def min_def)
qed

lemma patchReadme_insert:
  assumes "indexOf doc progressMarker = None"
    and "indexOf doc licenseMarker = Some k"
  shows "patchReadme doc S = take k doc @ S @ js ''\<newline>\<newline>'' @ drop k doc"
proof -
  have "k \<le> length doc" using assms(2) by (rule indexOf_le)
  then show ?thesis
    using assms by (simp add: patchReadme_def substring_def substringFrom_def min_def)
qed

lemma patchReadme_append:
  assumes "indexOf doc progressMarker = None"
    and "indexOf doc licenseMarker = None"
  shows "patchReadme doc S = doc @ js ''\<newline>\<newline>'' @ S"
  using assms by (simp add: patchReadme_def)

lemma progressMarker_facts:
  "progressMarker \<noteq> []" "10 \<notin> set progressMarker"
  by (simp_all add: progressMarker_def js_def)

lemma nextSection_facts:
  "nextSection \<noteq> []" "hd nextSection \<notin> set (tl nextSection)"
  by (simp_all add: nextSection_def js_def)

lemma digits_small: "n < 10 \<Longrightarrow> digits n = [of_nat (48 + n)]"
  by (simp add: digits.simps [of n])

lemma generateProgressSection_starts_with_marker:
  "prefix progressMarker (generateProgressSection now tasks)"
  by (simp add: generateProgressSection_def progressMarker_def js_def)

text \<open>The marker heading cannot overlap itself: \<open>#\<close> occurs in it at its first two places only.\<close>

lemma progressMarker_unbordered:
  assumes "0 < n" and "n < length progressMarker"
  shows "\<not> prefix (drop n progressMarker) progressMarker"
proof
  assume p: "prefix (drop n progressMarker) progressMarker"
  obtain rest where M: "progressMarker = 35 # 35 # 32 # rest" and rest: "35 \<notin> set rest"
    by (simp add: progressMarker_def js_def)
  from p have p': "prefix (drop n (35 # 35 # 32 # rest)) (35 # 35 # 32 # rest)"
    unfolding M .
  show False
  proof (cases "n = 1")
    case True
    with p' show False by simp
  next
    case False
    with assms(1) obtain m where n: "n = Suc (Suc m)"
      by (metis One_nat_def Suc_pred not0_implies_Suc)
    with assms(2) have m: "m < length (32 # rest)" by (simp add: M)
    then obtain y ys where d: "drop m (32 # rest) = y # ys"
      by (cases "drop m (32 # rest)") simp_all
    then have "y \<in> set (32 # rest)"
      by (metis in_set_dropD list.set_intros(1))
    with rest have "y \<noteq> 35" by auto
    moreover from p' n d have "y = 35" by simp
    ultimately show False by simp
  qed
qed

text \<open>
  When the marker is absent from \<open>doc\<close>, its first occurrence in
  \<open>take k doc @ progressMarker @ X\<close> is at \<open>k\<close>.
\<close>

lemma indexOf_marker_after_prefix:
  assumes doc: "indexOf doc progressMarker = None" and k: "k \<le> length doc"
  shows "indexOf (take k doc @ progressMarker @ X) progressMarker = Some k"
proof (rule indexOf_SomeI)
  show "k \<le> length (take k doc @ progressMarker @ X)" using k by simp
  show "prefix progressMarker (drop k (take k doc @ progressMarker @ X))" using k by simp
  show "\<not> prefix progressMarker (drop j (take k doc @ progressMarker @ X))" if j: "j < k" for j
  proof
    assume "prefix progressMarker (drop j (take k doc @ progressMarker @ X))"
    with j k have "prefix progressMarker (drop j (take k doc) @ progressMarker @ X)" by simp
    then consider "prefix progressMarker (drop j (take k doc))"
      | us where "progressMarker = drop j (take k doc) @ us" "prefix us (progressMarker @ X)"
      by (auto simp: prefix_append)
    then show False
    proof cases
      case 1
      then have "prefix progressMarker (drop j (take k doc) @ drop k doc)"
        by (rule prefix_prefix)
      moreover have "drop j (take k doc @ drop k doc) = drop j (take k doc) @ drop k doc"
        using j k by (simp del: append_take_drop_id)
      ultimately have "prefix progressMarker (drop j doc)" by simp
      with indexOf_None [OF doc, of j] j k show False by simp
    next
      case 2
      define n where "n = length (drop j (take k doc))"
      have n0: "0 < n" using j k by (simp add: n_def)
      have us: "us = drop n progressMarker"
        using 2(1) by (metis append_eq_conv_conj n_def)
      have len: "length progressMarker = n + length us"
        using 2(1) by (metis length_append n_def)
      show False
      proof (cases "us = []")
        case True
        with 2(1) have "prefix progressMarker (drop j (take k doc))" by simp
        then have "prefix progressMarker (drop j (take k doc) @ drop k doc)"
          by (rule prefix_prefix)
        moreover have "drop j (take k doc @ drop k doc) = drop j (take k doc) @ drop k doc"
          using j k by (simp del: append_take_drop_id)
        ultimately have "prefix progressMarker (drop j doc)" by simp
        with indexOf_None [OF doc, of j] j k show False by simp
      next
        case False
        with len have nlt: "n < length progressMarker" by simp
        have "prefix progressMarker (progressMarker @ X)" by simp
        from prefix_length_prefix [OF 2(2) this] len have "prefix us progressMarker" by simp
        with us progressMarker_unbordered [OF n0 nlt] show False by simp
      qed
    qed
  qed
qed

subsection \<open>Patching twice\<close>

text \<open>
  Inserting before the license heading is never stable: the first patch leaves two line
  feeds between the section and the heading, and the second patch, which now finds the
  marker, keeps the text from the first \<open>\n## \<close> on, that is one line feed only.
\<close>

lemma patchReadme_insert_twice:
  assumes doc: "indexOf doc progressMarker = None"
    and lic: "indexOf doc licenseMarker = Some k"
    and S: "prefix progressMarker S"
  shows "patchReadme (patchReadme doc S) S \<noteq> patchReadme doc S"
proof -
  from S obtain T where Seq: "S = progressMarker @ T"
    by (auto simp: prefix_def)
  have k: "k \<le> length doc" using lic by (rule indexOf_le)
  obtain ls where L: "drop k doc = 35 # 35 # ls"
    using indexOf_prefix [OF lic] by (auto simp: licenseMarker_def js_def prefix_def)
  define r where "r = take k doc @ progressMarker @ T @ 10 # 10 # 35 # 35 # ls"
  have r1: "patchReadme doc S = r"
    using patchReadme_insert [OF doc lic, of S] L by (simp add: r_def Seq blank_line)
  have first: "indexOf r progressMarker = Some k"
    unfolding r_def using doc k by (rule indexOf_marker_after_prefix)
  have after: "drop (k + length progressMarker) r = T @ 10 # 10 # 35 # 35 # ls"
    using k by (simp add: r_def)
  have "patchReadme r S \<noteq> r"
  proof (cases "indexOf (drop (k + length progressMarker) r) nextSection")
    case None
    from patchReadme_replace_to_end [OF first None, of S] k
    have "length (patchReadme r S) < length r"
      by (simp add: r_def Seq)
    then show ?thesis by auto
  next
    case (Some j)
    from indexOf_prefix [OF Some] obtain zs
      where zs: "drop j (drop (k + length progressMarker) r) = 10 # 35 # 35 # 32 # zs"
      by (auto simp: nextSection_def js_def prefix_def)
    from patchReadme_replace [OF first Some, of S] zs k
    have "patchReadme r S = take k doc @ progressMarker @ T @ 10 # 35 # 35 # 32 # zs"
      by (simp add: r_def Seq)
    then show ?thesis by (simp add: r_def)
  qed
  with r1 show ?thesis by simp
qed

text \<open>
  Claim C1, as stated, fails in the insert-when-absent case. The document has no marker
  heading and has the license heading; the section is the one generated for the tasks of
  the empty analysis. Patching twice differs from patching once.
\<close>

theorem patchReadme_not_idempotent_counterexample:
  "patchReadme (patchReadme licensedReadme exampleSection) exampleSection
     \<noteq> patchReadme licensedReadme exampleSection"
proof (rule patchReadme_insert_twice)
  show "indexOf licensedReadme progressMarker = None"
    by (simp add: progressMarker_def js_def)
  show "indexOf licensedReadme licenseMarker = Some 8"
    by (simp add: licenseMarker_def js_def)
  show "prefix progressMarker exampleSection"
    by (rule generateProgressSection_starts_with_marker)
qed

text \<open>
  Claim C1, amended: for every document in which the marker heading is present (the
  replace case) or in which neither the marker heading nor the license heading is present
  (the append case), and every section text that starts with the marker heading and has
  no \<open>\n## \<close> after it, patching twice gives the same document as patching once.
\<close>

theorem patchReadme_idempotent:
  assumes S: "prefix progressMarker S"
    and S': "indexOf (drop (length progressMarker) S) nextSection = None"
    and doc: "indexOf doc progressMarker \<noteq> None \<or> indexOf doc licenseMarker = None"
  shows "patchReadme (patchReadme doc S) S = patchReadme doc S"
proof -
  define M where "M = progressMarker"
  define T where "T = drop (length M) S"
  from S have Seq: "S = M @ T"
    by (auto simp: prefix_def M_def T_def)
  show ?thesis
  proof (cases "indexOf doc progressMarker")
    case (Some i)
    define P where "P = take i doc"
    define R where "R = drop (i + length M) doc"
    have lenP: "length P = i"
      using indexOf_le [OF Some] by (simp add: P_def)
    have doceq: "doc = P @ M @ R"
      using indexOf_split [OF Some] by (simp add: P_def R_def M_def)
    have first: "indexOf (P @ M @ X) M = Some i" for X
      using indexOf_replace_tail [of P M R X] Some doceq lenP by (simp add: M_def)
    show ?thesis
    proof (cases "indexOf R nextSection")
      case None
      have r1: "patchReadme doc S = P @ M @ T"
        using patchReadme_replace_to_end [OF Some, of S] None
        by (simp add: P_def R_def M_def Seq)
      have "indexOf (P @ M @ T) progressMarker = Some i"
        using first [of T] by (simp add: M_def)
      moreover have "drop (i + length progressMarker) (P @ M @ T) = T"
        using lenP by (simp add: M_def)
      ultimately have "patchReadme (P @ M @ T) S = take i (P @ M @ T) @ S"
        using S' by (intro patchReadme_replace_to_end) (simp_all add: T_def M_def)
      with r1 lenP show ?thesis by (simp add: Seq)
    next
      case (Some j)
      define U where "U = drop j R"
      have U: "prefix nextSection U"
        using indexOf_prefix [OF Some] by (simp add: U_def)
      have r1: "patchReadme doc S = P @ M @ T @ U"
        using patchReadme_replace [OF \<open>indexOf doc progressMarker = Some i\<close>, of j S] Some
        by (simp add: P_def R_def M_def U_def Seq)
      have a: "indexOf (P @ M @ T @ U) progressMarker = Some i"
        using first [of "T @ U"] by (simp add: M_def)
      have b: "drop (i + length progressMarker) (P @ M @ T @ U) = T @ U"
        using lenP by (simp add: M_def)
      have c: "indexOf (T @ U) nextSection = Some (length T)"
        using nextSection_facts S' U by (intro indexOf_no_overlap) (simp_all add: T_def M_def)
      have c': "indexOf (drop (i + length progressMarker) (P @ M @ T @ U)) nextSection
                  = Some (length T)"
        unfolding b by (rule c)
      have "patchReadme (P @ M @ T @ U) S
              = take i (P @ M @ T @ U) @ S
                  @ drop (length T) (drop (i + length progressMarker) (P @ M @ T @ U))"
        using a c' by (rule patchReadme_replace)
      with r1 lenP b show ?thesis by (simp add: Seq)
    qed
  next
    case None
    with doc have L: "indexOf doc licenseMarker = None" by simp
    have r1: "patchReadme doc S = doc @ [10, 10] @ M @ T"
      using patchReadme_append [OF None L, of S] by (simp add: blank_line Seq)
    have a: "indexOf (doc @ [10, 10] @ M @ T) progressMarker = Some (length doc + 2)"
      using indexOf_after_blank_line [of progressMarker doc T] progressMarker_facts None
      by (simp add: M_def)
    have b: "drop (length doc + 2 + length progressMarker) (doc @ [10, 10] @ M @ T) = T"
      by (simp add: M_def)
    have "patchReadme (doc @ [10, 10] @ M @ T) S = take (length doc + 2) (doc @ [10, 10] @ M @ T) @ S"
      using a S' by (intro patchReadme_replace_to_end) (simp_all add: b, simp add: T_def M_def)
    with r1 show ?thesis by (simp add: Seq)
  qed
qed

lemmas section_eval =
  generateProgressSection_def taskEntry_def progressMarker_def nextSection_def js_def
  generateTasks_def ruleTasks_def generalTask_def mkBaseTask_def numToString_def digits_small

text \<open>
  The generated section of the example satisfies both conditions on the section; one
  document of the replace case and one of the append case.
\<close>

theorem patchReadme_idempotent_witness:
  "indexOf (drop (length progressMarker) exampleSection) nextSection = None
   \<and> indexOf patchedReadme progressMarker = Some 8
   \<and> patchReadme (patchReadme patchedReadme exampleSection) exampleSection
       = patchReadme patchedReadme exampleSection
   \<and> indexOf bareReadme progressMarker = None
   \<and> indexOf bareReadme licenseMarker = None
   \<and> patchReadme (patchReadme bareReadme exampleSection) exampleSection
       = patchReadme bareReadme exampleSection"
proof -
  have s1: "prefix progressMarker exampleSection"
    by (rule generateProgressSection_starts_with_marker)
  have s2: "indexOf (drop (length progressMarker) exampleSection) nextSection = None"
    by (simp add: section_eval)
  have d1: "indexOf patchedReadme progressMarker = Some 8"
    by (simp add: progressMarker_def js_def)
  have d2: "indexOf bareReadme progressMarker = None"
    by (simp add: progressMarker_def js_def)
  have d3: "indexOf bareReadme licenseMarker = None"
    by (simp add: licenseMarker_def js_def)
  have c1: "indexOf patchedReadme progressMarker \<noteq> None
              \<or> indexOf patchedReadme licenseMarker = None"
    unfolding d1 by simp
  have c2: "indexOf bareReadme progressMarker \<noteq> None
              \<or> indexOf bareReadme licenseMarker = None"
    unfolding d3 by simp
  have "patchReadme (patchReadme patchedReadme exampleSection) exampleSection
          = patchReadme patchedReadme exampleSection"
    using s1 s2 c1 by (rule patchReadme_idempotent)
  moreover have "patchReadme (patchReadme bareReadme exampleSection) exampleSection
          = patchReadme bareReadme exampleSection"
    using s1 s2 c2 by (rule patchReadme_idempotent)
  ultimately show ?thesis using s2 d1 d2 d3 by simp
qed

subsection \<open>Inserting before the license heading\<close>

text \<open>
  Claim C7, as stated, fails: the anchor the code searches for is the license heading
  with its emoji, not the text \<open>## License\<close>. A document with the heading \<open>## License\<close> and
  no marker gets the section appended at its end.
\<close>

theorem patchReadme_plain_license_counterexample:
  "patchReadme plainLicenseReadme exampleSection
     = plainLicenseReadme @ js ''\<newline>\<newline>'' @ exampleSection
   \<and> patchReadme plainLicenseReadme exampleSection
     \<noteq> js ''# Tool\<newline>\<newline>'' @ exampleSection @ js ''\<newline>\<newline>''
         @ js ''## License\<newline>\<newline>MIT\<newline>''"
proof -
  have a: "indexOf plainLicenseReadme progressMarker = None"
    by (simp add: progressMarker_def js_def)
  have b: "indexOf plainLicenseReadme licenseMarker = None"
    by (simp add: licenseMarker_def js_def)
  obtain T where T: "exampleSection = progressMarker @ T"
    using generateProgressSection_starts_with_marker [of "js ''8/4/2025, 12:00:16 AM''"
        "generateTasks clock emptyAnalysis"]
    by (auto simp: prefix_def)
  have c: "patchReadme plainLicenseReadme exampleSection
             = plainLicenseReadme @ js ''\<newline>\<newline>'' @ exampleSection"
    using a b by (rule patchReadme_append)
  have "plainLicenseReadme @ js ''\<newline>\<newline>'' @ exampleSection
          \<noteq> js ''# Tool\<newline>\<newline>'' @ exampleSection @ js ''\<newline>\<newline>''
              @ js ''## License\<newline>\<newline>MIT\<newline>''"
    unfolding T by (simp add: progressMarker_def js_def)
  with c show ?thesis by simp
qed

text \<open>
  Claim C7, amended: patching a document that contains no marker heading but does
  contain the license heading of the code (\<open>##\<close>, the page emoji, \<open>License\<close>) inserts the new
  section, followed by two line feeds, immediately before the first occurrence of that
  heading, and leaves every code unit before and after it unchanged.
\<close>

theorem patchReadme_inserts_before_license:
  assumes "indexOf doc progressMarker = None"
    and "indexOf doc licenseMarker = Some k"
  shows "patchReadme doc S = take k doc @ S @ js ''\<newline>\<newline>'' @ drop k doc
         \<and> take k doc @ drop k doc = doc
         \<and> prefix licenseMarker (drop k doc)
         \<and> indexOf (take k doc) licenseMarker = None"
proof -
  have "indexOf (take k doc) licenseMarker = None"
  proof (cases "indexOf (take k doc) licenseMarker")
    case None
    then show ?thesis .
  next
    case (Some j)
    have j: "j \<le> length (take k doc)" using Some by (rule indexOf_le)
    have k: "k \<le> length doc" using assms(2) by (rule indexOf_le)
    have lne: "licenseMarker \<noteq> []" by (simp add: licenseMarker_def js_def)
    have "prefix licenseMarker (drop j (take k doc))" using Some by (rule indexOf_prefix)
    then have p: "prefix licenseMarker (drop j (take k doc) @ drop k doc)"
      by (rule prefix_prefix)
    have "drop j (take k doc @ drop k doc) = drop j (take k doc) @ drop k doc"
      using j by (simp del: append_take_drop_id)
    with p have p': "prefix licenseMarker (drop j doc)" by simp
    have "j \<noteq> k"
    proof
      assume "j = k"
      with \<open>prefix licenseMarker (drop j (take k doc))\<close> k lne show False by simp
    qed
    with j k have "j < k" by simp
    from indexOf_least [OF assms(2) this] p' show ?thesis by simp
  qed
  with patchReadme_insert [OF assms, of S] indexOf_prefix [OF assms(2)]
  show ?thesis by simp
qed

theorem patchReadme_inserts_before_license_witness:
  "indexOf licensedReadme progressMarker = None
   \<and> indexOf licensedReadme licenseMarker = Some 8
   \<and> patchReadme licensedReadme exampleSection
       = js ''# Tool\<newline>\<newline>'' @ exampleSection @ js ''\<newline>\<newline>'' @ js ''## ''
           @ [0xD83D, 0xDCC4] @ js '' License\<newline>\<newline>MIT\<newline>''"
proof -
  have a: "indexOf licensedReadme progressMarker = None"
    by (simp add: progressMarker_def js_def)
  have b: "indexOf licensedReadme licenseMarker = Some 8"
    by (simp add: licenseMarker_def js_def)
  from patchReadme_inserts_before_license [OF a b, of exampleSection] a b
  show ?thesis by (simp add: js_def)
qed

end
